theory Spec2Isabelle
  imports Complex_Main "HOL-Library.AList"
begin

section \<open>The MIDI synth of \<open>src/midiSynth.js\<close>\<close>

text \<open>
  The program is a set of event handlers over five global variables:
  \<open>audioContext\<close>, \<open>masterGainNode\<close>, \<open>masterFilter\<close>, \<open>midiPorts\<close> and
  \<open>pressedKeys\<close>. The handlers are embedded as functions that take the state and
  return the new one. JavaScript numbers are modelled as reals (the bytes of a MIDI
  message as naturals), an \<open>undefined\<close> variable as \<open>None\<close>, and an exception thrown
  by a Web Audio call as \<open>Inl\<close> of a result.

  The two collaborators the handlers call are part of the state, so that what the
  handlers do to them can be stated: the Web Audio engine (its nodes, the connections
  between them and the \<open>start\<close>/\<open>stop\<close> calls it has received) and the event listener
  lists of the MIDI ports. The text written to the page by \<open>printMessageInfo\<close> and
  \<open>logStatus\<close> is left out.
\<close>

subsection \<open>The Web Audio engine\<close>

datatype js_error = TypeError | InvalidStateError

text \<open>
  A node and the values of its parameters: \<open>gain.value\<close> of a GainNode, \<open>type\<close> and
  \<open>frequency.value\<close> of an OscillatorNode, \<open>type\<close>, \<open>frequency.value\<close> and
  \<open>Q.value\<close> of a BiquadFilterNode.
\<close>

datatype audio_node =
    Destination
  | Gain real
  | Oscillator string real
  | BiquadFilter string real real

datatype call = Start nat | Stop nat

record audio_engine =
  nodes :: "nat \<Rightarrow> audio_node option"
  next_id :: nat
  connections :: "(nat \<times> nat) list"
  calls :: "call list"

record audio_context =
  destination :: nat

definition new_node :: "audio_node \<Rightarrow> audio_engine \<Rightarrow> nat \<times> audio_engine" where
  "new_node n e =
     (next_id e, e\<lparr>nodes := (nodes e)(next_id e \<mapsto> n), next_id := Suc (next_id e)\<rparr>)"

text \<open>\<open>new AudioContext()\<close>: a context with its destination node.\<close>

definition new_AudioContext :: "audio_engine \<Rightarrow> audio_context \<times> audio_engine" where
  "new_AudioContext e = (case new_node Destination e of (d, e') \<Rightarrow> (\<lparr>destination = d\<rparr>, e'))"

text \<open>
  The factory methods give a node with the default values of the Web Audio API:
  a gain of 1, a sine oscillator at 440 Hz, a low-pass filter at 350 Hz with Q = 1.
\<close>

definition ctx_createGain :: "audio_engine \<Rightarrow> nat \<times> audio_engine" where
  "ctx_createGain e = new_node (Gain 1) e"

definition ctx_createOscillator :: "audio_engine \<Rightarrow> nat \<times> audio_engine" where
  "ctx_createOscillator e = new_node (Oscillator ''sine'' 440) e"

definition ctx_createBiquadFilter :: "audio_engine \<Rightarrow> nat \<times> audio_engine" where
  "ctx_createBiquadFilter e = new_node (BiquadFilter ''lowpass'' 350 1) e"

text \<open>\<open>node.gain.value = v\<close>, \<open>node.frequency.value = v\<close>, \<open>node.Q.value = v\<close>, \<open>node.type = t\<close>.\<close>

definition set_gain_value :: "nat \<Rightarrow> real \<Rightarrow> audio_engine \<Rightarrow> audio_engine" where
  "set_gain_value i v e =
     (case nodes e i of
        Some (Gain g) \<Rightarrow> e\<lparr>nodes := (nodes e)(i \<mapsto> Gain v)\<rparr>
      | _ \<Rightarrow> e)"

definition set_frequency_value :: "nat \<Rightarrow> real \<Rightarrow> audio_engine \<Rightarrow> audio_engine" where
  "set_frequency_value i v e =
     (case nodes e i of
        Some (Oscillator t f) \<Rightarrow> e\<lparr>nodes := (nodes e)(i \<mapsto> Oscillator t v)\<rparr>
      | Some (BiquadFilter t f q) \<Rightarrow> e\<lparr>nodes := (nodes e)(i \<mapsto> BiquadFilter t v q)\<rparr>
      | _ \<Rightarrow> e)"

definition set_Q_value :: "nat \<Rightarrow> real \<Rightarrow> audio_engine \<Rightarrow> audio_engine" where
  "set_Q_value i v e =
     (case nodes e i of
        Some (BiquadFilter t f q) \<Rightarrow> e\<lparr>nodes := (nodes e)(i \<mapsto> BiquadFilter t f v)\<rparr>
      | _ \<Rightarrow> e)"

definition set_type :: "nat \<Rightarrow> string \<Rightarrow> audio_engine \<Rightarrow> audio_engine" where
  "set_type i t e =
     (case nodes e i of
        Some (Oscillator t0 f) \<Rightarrow> e\<lparr>nodes := (nodes e)(i \<mapsto> Oscillator t f)\<rparr>
      | Some (BiquadFilter t0 f q) \<Rightarrow> e\<lparr>nodes := (nodes e)(i \<mapsto> BiquadFilter t f q)\<rparr>
      | _ \<Rightarrow> e)"

text \<open>
  \<open>filter.frequency = v\<close> and \<open>filter.Q = v\<close>: \<open>frequency\<close> and \<open>Q\<close> are read-only
  attributes of a BiquadFilterNode that hold its AudioParam objects (the program itself
  reads \<open>masterFilter.frequency.value\<close> in \<open>setMasterFilterFreq\<close>). An assignment to a
  read-only attribute in a script that is not in strict mode is ignored: the
  parameter keeps the value it had.
\<close>

definition assign_readonly_attribute ::
  "nat \<Rightarrow> string \<Rightarrow> real \<Rightarrow> audio_engine \<Rightarrow> audio_engine" where
  "assign_readonly_attribute i attr v e = e"

text \<open>\<open>src.connect(dst)\<close>; an \<open>undefined\<close> target is a TypeError.\<close>

definition connect :: "nat \<Rightarrow> nat option \<Rightarrow> audio_engine \<Rightarrow> js_error + audio_engine" where
  "connect src dst e =
     (case dst of
        None \<Rightarrow> Inl TypeError
      | Some d \<Rightarrow> Inr (e\<lparr>connections := connections e @ [(src, d)]\<rparr>))"

text \<open>
  \<open>osc.start()\<close> throws when the oscillator has been started before, \<open>osc.stop()\<close>
  when it has never been started.
\<close>

definition osc_start :: "nat \<Rightarrow> audio_engine \<Rightarrow> js_error + audio_engine" where
  "osc_start i e =
     (if Start i \<in> set (calls e) then Inl InvalidStateError
      else Inr (e\<lparr>calls := calls e @ [Start i]\<rparr>))"

definition osc_stop :: "nat \<Rightarrow> audio_engine \<Rightarrow> js_error + audio_engine" where
  "osc_stop i e =
     (if Start i \<in> set (calls e) then Inr (e\<lparr>calls := calls e @ [Stop i]\<rparr>)
      else Inl InvalidStateError)"

subsection \<open>MIDI ports and the program state\<close>

datatype port_type = Input | Output

datatype port_state = Connected | Disconnected

text \<open>A MIDIPort object: \<open>port_id\<close> is the identity of the object, the rest its attributes.\<close>

record midi_port =
  port_id :: nat
  name :: string
  ptype :: port_type
  pstate :: port_state

text \<open>
  \<open>midiPorts\<close> and \<open>pressedKeys\<close> are objects used as dictionaries: the lists of their
  own properties. \<open>listeners\<close> holds the (port, event type) pairs at which the program
  has a listener (\<open>onStateChange\<close> for \<open>statechange\<close>, \<open>onMidiMessage\<close> for
  \<open>midimessage\<close>). \<open>ACtx\<close> says whether the browser has an AudioContext constructor.
\<close>

record synth =
  audioContext :: "audio_context option"
  masterGainNode :: "nat option"
  masterFilter :: "nat option"
  midiPorts :: "(string \<times> midi_port) list"
  pressedKeys :: "(nat \<times> nat) list"
  engine :: audio_engine
  listeners :: "(nat \<times> string) list"
  startBtnDisabled :: bool
  ACtx :: bool

definition init :: "bool \<Rightarrow> synth" where
  "init a =
     \<lparr>audioContext = None, masterGainNode = None, masterFilter = None,
      midiPorts = [], pressedKeys = [],
      engine = \<lparr>nodes = Map.empty, next_id = 0, connections = [], calls = []\<rparr>,
      listeners = [], startBtnDisabled = False, ACtx = a\<rparr>"

text \<open>
  \<open>midiPorts\<close> is created by \<open>{}\<close>, so a read \<open>midiPorts[k]\<close> that finds no own property
  \<open>k\<close> goes on to \<open>Object.prototype\<close>, whose properties are all truthy. The values the
  program stores are objects, which are truthy too. (\<open>pressedKeys\<close> is read at the
  decimal string of a byte, which is no property of \<open>Object.prototype\<close>: there a read
  is the lookup among the own properties.)
\<close>

definition object_prototype_keys :: "string list" where
  "object_prototype_keys =
     [''constructor'', ''__defineGetter__'', ''__defineSetter__'', ''hasOwnProperty'',
      ''__lookupGetter__'', ''__lookupSetter__'', ''isPrototypeOf'',
      ''propertyIsEnumerable'', ''toString'', ''valueOf'', ''__proto__'',
      ''toLocaleString'']"

definition truthy_property :: "(string \<times> 'v) list \<Rightarrow> string \<Rightarrow> bool" where
  "truthy_property obj k =
     (case map_of obj k of Some v \<Rightarrow> True | None \<Rightarrow> k \<in> set object_prototype_keys)"

text \<open>\<open>target.addEventListener\<close> adds nothing when the listener is there already.\<close>

definition addEventListener :: "nat \<Rightarrow> string \<Rightarrow> (nat \<times> string) list \<Rightarrow> (nat \<times> string) list" where
  "addEventListener p ty ls = (if (p, ty) \<in> set ls then ls else ls @ [(p, ty)])"

definition removeEventListener :: "nat \<Rightarrow> string \<Rightarrow> (nat \<times> string) list \<Rightarrow> (nat \<times> string) list" where
  "removeEventListener p ty ls = removeAll (p, ty) ls"

subsection \<open>MIDI\<close>

definition enableMidiInput :: "midi_port \<Rightarrow> synth \<Rightarrow> synth" where
  "enableMidiInput input s =
     (if truthy_property (midiPorts s) (name input) then s
      else s\<lparr>listeners :=
                addEventListener (port_id input) ''midimessage''
                  (addEventListener (port_id input) ''statechange'' (listeners s)),
              midiPorts := AList.update (name input) input (midiPorts s)\<rparr>)"

definition disableMidiInput :: "midi_port \<Rightarrow> synth \<Rightarrow> synth" where
  "disableMidiInput input s =
     (if \<not> truthy_property (midiPorts s) (name input) then s
      else s\<lparr>listeners :=
                removeEventListener (port_id input) ''midimessage''
                  (removeEventListener (port_id input) ''statechange'' (listeners s)),
              midiPorts := AList.delete (name input) (midiPorts s)\<rparr>)"

definition onStateChange :: "midi_port \<Rightarrow> synth \<Rightarrow> synth" where
  "onStateChange port s =
     (if ptype port = Input then
        (case pstate port of
           Connected \<Rightarrow> enableMidiInput port s
         | Disconnected \<Rightarrow> disableMidiInput port s)
      else s)"

definition isNoteOn :: "nat \<Rightarrow> bool" where
  "isNoteOn statusByte = (statusByte \<ge> 144 \<and> statusByte \<le> 159)"

definition isNoteOff :: "nat \<Rightarrow> bool" where
  "isNoteOff statusByte = (statusByte \<ge> 128 \<and> statusByte \<le> 143)"

definition midiNoteToFreq :: "nat \<Rightarrow> real" where
  "midiNoteToFreq note = 2 powr ((real note - 69) / 12) * 440"

definition midiVelocityToGain :: "nat \<Rightarrow> real" where
  "midiVelocityToGain velocity = ln (10 ^ velocity) / 292.4283068102438"

subsection \<open>WebAudio\<close>

definition createFilter :: "audio_engine \<Rightarrow> nat \<times> audio_engine" where
  "createFilter e =
     (case ctx_createBiquadFilter e of (filter', e1) \<Rightarrow>
        (filter',
         assign_readonly_attribute filter' ''Q'' 8
           (assign_readonly_attribute filter' ''frequency'' 1000
              (set_type filter' ''lowpass'' e1))))"

definition createAudio :: "synth \<Rightarrow> js_error + synth" where
  "createAudio s =
     (if \<not> ACtx s then Inr s
      else
        (case new_AudioContext (engine s) of (ctx, e1) \<Rightarrow>
         case ctx_createGain e1 of (g, e2) \<Rightarrow>
         case createFilter (set_gain_value g 0.5 e2) of (f, e3) \<Rightarrow>
         case connect g (Some f) e3 of
           Inl err \<Rightarrow> Inl err
         | Inr e4 \<Rightarrow>
           (case connect f (Some (destination ctx)) e4 of
              Inl err \<Rightarrow> Inl err
            | Inr e5 \<Rightarrow>
                Inr (s\<lparr>audioContext := Some ctx, masterGainNode := Some g,
                       masterFilter := Some f, engine := e5\<rparr>))))"

definition disableStartBtn :: "synth \<Rightarrow> synth" where
  "disableStartBtn s = s\<lparr>startBtnDisabled := True\<rparr>"

definition onStartBtnClick :: "synth \<Rightarrow> js_error + synth" where
  "onStartBtnClick s =
     (case createAudio s of Inl err \<Rightarrow> Inl err | Inr s' \<Rightarrow> Inr (disableStartBtn s'))"

definition createOscillator :: "real \<Rightarrow> audio_engine \<Rightarrow> nat \<times> audio_engine" where
  "createOscillator frequency e =
     (case ctx_createOscillator e of (osc, e1) \<Rightarrow>
        (osc, set_frequency_value osc frequency (set_type osc ''square'' e1)))"

definition createGain :: "nat option \<Rightarrow> real \<Rightarrow> audio_engine \<Rightarrow> js_error + nat \<times> audio_engine" where
  "createGain master v e =
     (case ctx_createGain e of (gainNode, e1) \<Rightarrow>
        (case connect gainNode master e1 of
           Inl err \<Rightarrow> Inl err
         | Inr e2 \<Rightarrow> Inr (gainNode, set_gain_value gainNode v e2)))"

definition playNote :: "nat \<Rightarrow> nat \<Rightarrow> synth \<Rightarrow> js_error + synth" where
  "playNote note velocity s =
     (if audioContext s = None then Inr s
      else
        (case createOscillator (midiNoteToFreq note) (engine s) of (osc, e1) \<Rightarrow>
         case createGain (masterGainNode s) (midiVelocityToGain velocity) e1 of
           Inl err \<Rightarrow> Inl err
         | Inr (gainNode, e2) \<Rightarrow>
           (case connect osc (Some gainNode) e2 of
              Inl err \<Rightarrow> Inl err
            | Inr e3 \<Rightarrow>
              (case osc_start osc e3 of
                 Inl err \<Rightarrow> Inl err
               | Inr e4 \<Rightarrow>
                   Inr (s\<lparr>pressedKeys := AList.update note osc (pressedKeys s),
                          engine := e4\<rparr>)))))"

definition stopNote :: "nat \<Rightarrow> synth \<Rightarrow> js_error + synth" where
  "stopNote note s =
     (case map_of (pressedKeys s) note of
        None \<Rightarrow> Inr s
      | Some osc \<Rightarrow>
        (case osc_stop osc (engine s) of
           Inl err \<Rightarrow> Inl err
         | Inr e1 \<Rightarrow>
             Inr (s\<lparr>pressedKeys := AList.delete note (pressedKeys s), engine := e1\<rparr>)))"

definition setMasterGain :: "real \<Rightarrow> synth \<Rightarrow> synth" where
  "setMasterGain v s =
     (case masterGainNode s of
        None \<Rightarrow> s
      | Some g \<Rightarrow> s\<lparr>engine := set_gain_value g v (engine s)\<rparr>)"

definition setMasterFilterFreq :: "nat \<Rightarrow> synth \<Rightarrow> synth" where
  "setMasterFilterFreq d s =
     (case masterFilter s of
        None \<Rightarrow> s
      | Some f \<Rightarrow> s\<lparr>engine := set_frequency_value f ((real d / 64) * 1000) (engine s)\<rparr>)"

text \<open>
  \<open>onMidiMessage\<close> on a message of three bytes: four \<open>if\<close> statements one after the
  other, each run on the state the one before it has left.
\<close>

definition onMidiMessage :: "nat \<times> nat \<times> nat \<Rightarrow> synth \<Rightarrow> js_error + synth" where
  "onMidiMessage message s =
     (case message of (statusByte, data1, data2) \<Rightarrow>
        (case (if isNoteOn statusByte then playNote data1 data2 s else Inr s) of
           Inl err \<Rightarrow> Inl err
         | Inr s1 \<Rightarrow>
           (case (if isNoteOff statusByte then stopNote data1 s1 else Inr s1) of
              Inl err \<Rightarrow> Inl err
            | Inr s2 \<Rightarrow>
                (let s3 =
                   (if statusByte = 176 then
                      (if data1 = 1 then s2
                       else if data1 = 7 then setMasterGain (real data2 / 127) s2
                       else s2)
                    else s2)
                 in Inr (if statusByte = 224 then setMasterFilterFreq data2 s3 else s3)))))"

subsection \<open>Runs of the program\<close>

text \<open>
  The events the page receives: a click on the start button, which reaches
  \<open>onStartBtnClick\<close> only while the button is enabled; a \<open>statechange\<close> of a port; an
  input that \<open>setupMidi\<close> finds and hands to \<open>enableMidiInput\<close>; a MIDI message of
  three bytes. A run handles the events one after the other and stops at the first
  exception.
\<close>

datatype event =
    StartBtnClick
  | StateChange midi_port
  | FoundInput midi_port
  | MidiMessage nat nat nat

fun step :: "event \<Rightarrow> synth \<Rightarrow> js_error + synth" where
  "step StartBtnClick s = (if startBtnDisabled s then Inr s else onStartBtnClick s)"
| "step (StateChange port) s = Inr (onStateChange port s)"
| "step (FoundInput input) s = Inr (enableMidiInput input s)"
| "step (MidiMessage statusByte data1 data2) s = onMidiMessage (statusByte, data1, data2) s"

fun run :: "event list \<Rightarrow> synth \<Rightarrow> js_error + synth" where
  "run [] s = Inr s"
| "run (ev # evs) s = (case step ev s of Inl err \<Rightarrow> Inl err | Inr s' \<Rightarrow> run evs s')"

subsection \<open>The other versions of the program\<close>

text \<open>
  \<open>createFilter\<close> of the class \<open>MidiSynth\<close> (the last of the other versions of the
  program): it writes \<open>filter.frequency.value\<close> and \<open>filter.Q.value\<close>.
\<close>

definition createFilter_class :: "audio_engine \<Rightarrow> nat \<times> audio_engine" where
  "createFilter_class e =
     (case ctx_createBiquadFilter e of (filter', e1) \<Rightarrow>
        (filter',
         set_Q_value filter' 8
           (set_frequency_value filter' 1000 (set_type filter' ''lowpass'' e1))))"

text \<open>
  \<open>enableMidiInput\<close> of the version without \<open>midiPorts\<close> (the second of the other
  versions): no guard, the two listeners are added at every call.
\<close>

definition enableMidiInput_unguarded :: "midi_port \<Rightarrow> synth \<Rightarrow> synth" where
  "enableMidiInput_unguarded input s =
     s\<lparr>listeners :=
         addEventListener (port_id input) ''midimessage''
           (addEventListener (port_id input) ''statechange'' (listeners s))\<rparr>"

subsection \<open>The decoder and the session controller of the specification\<close>

text \<open>
  The program has no decoder of its own: \<open>onMidiMessage\<close> tests the status byte and
  calls the handler. The events and the decoder below follow the words of the
  specification (section 4.1), and \<open>handleEvent\<close> its session controller (section 4.5)
  over the handlers of the program, to be compared with \<open>onMidiMessage\<close>.
\<close>

datatype MidiEvent =
    NoteOn nat nat
  | NoteOff nat
  | ControlChange nat nat
  | PitchBend nat
  | Other

definition decode :: "nat \<Rightarrow> nat \<Rightarrow> nat \<Rightarrow> MidiEvent" where
  "decode statusByte data1 data2 =
     (if 144 \<le> statusByte \<and> statusByte \<le> 159 then NoteOn data1 data2
      else if 128 \<le> statusByte \<and> statusByte \<le> 143 then NoteOff data1
      else if statusByte = 176 then ControlChange data1 data2
      else if statusByte = 224 then PitchBend data2
      else Other)"

definition controlVolumeToGain :: "nat \<Rightarrow> real" where
  "controlVolumeToGain v = real v / 127"

fun handleEvent :: "MidiEvent \<Rightarrow> synth \<Rightarrow> js_error + synth" where
  "handleEvent (NoteOn note velocity) s = playNote note velocity s"
| "handleEvent (NoteOff note) s = stopNote note s"
| "handleEvent (ControlChange controller v) s =
     (if controller = 7 then Inr (setMasterGain (controlVolumeToGain v) s) else Inr s)"
| "handleEvent (PitchBend v) s = Inr (setMasterFilterFreq v s)"
| "handleEvent Other s = Inr s"

subsection \<open>Invariant of the reachable states\<close>

text \<open>
  What every state reached from \<open>init\<close> satisfies: the three audio variables are set
  together; no voice exists before the audio context does; the keys of \<open>pressedKeys\<close>
  are distinct and so are its oscillators, each started and none stopped; the engine
  has been called only on nodes it has handed out.
\<close>

definition started_below :: "audio_engine \<Rightarrow> bool" where
  "started_below e =
     (\<forall>i. Start i \<in> set (calls e) \<or> Stop i \<in> set (calls e) \<longrightarrow> i < next_id e)"

definition synth_inv :: "synth \<Rightarrow> bool" where
  "synth_inv s =
     ((audioContext s = None \<longrightarrow>
         masterGainNode s = None \<and> masterFilter s = None \<and> pressedKeys s = [])
      \<and> (audioContext s \<noteq> None \<longrightarrow> masterGainNode s \<noteq> None \<and> masterFilter s \<noteq> None)
      \<and> distinct (map fst (pressedKeys s))
      \<and> (\<forall>osc \<in> snd ` set (pressedKeys s). Start osc \<in> set (calls (engine s)))
      \<and> distinct (map snd (pressedKeys s))
      \<and> (\<forall>osc \<in> snd ` set (pressedKeys s). Stop osc \<notin> set (calls (engine s)))
      \<and> started_below (engine s))"

subsection \<open>Two states of a concrete run\<close>

text \<open>
  \<open>example_running\<close> is the state after the start button is clicked in a browser that
  has an AudioContext, \<open>example_sounding\<close> the state after the message (144, 60, 90)
  is then received (\<open>run_example_running\<close> and \<open>run_example_sounding\<close> below).
\<close>

definition example_running :: synth where
  "example_running =
     \<lparr>audioContext = Some \<lparr>destination = 0\<rparr>, masterGainNode = Some 1, masterFilter = Some 2,
      midiPorts = [], pressedKeys = [],
      engine =
        \<lparr>nodes = [0 \<mapsto> Destination, 1 \<mapsto> Gain 0.5, 2 \<mapsto> BiquadFilter ''lowpass'' 350 1],
         next_id = 3, connections = [(1, 2), (2, 0)], calls = []\<rparr>,
      listeners = [], startBtnDisabled = True, ACtx = True\<rparr>"

definition example_sounding :: synth where
  "example_sounding =
     \<lparr>audioContext = Some \<lparr>destination = 0\<rparr>, masterGainNode = Some 1, masterFilter = Some 2,
      midiPorts = [], pressedKeys = [(60, 3)],
      engine =
        \<lparr>nodes = [0 \<mapsto> Destination, 1 \<mapsto> Gain 0.5, 2 \<mapsto> BiquadFilter ''lowpass'' 350 1,
                  3 \<mapsto> Oscillator ''square'' (midiNoteToFreq 60),
                  4 \<mapsto> Gain (midiVelocityToGain 90)],
         next_id = 5, connections = [(1, 2), (2, 0), (4, 1), (3, 4)], calls = [Start 3]\<rparr>,
      listeners = [], startBtnDisabled = True, ACtx = True\<rparr>"

section \<open>Properties\<close>

subsection \<open>The engine and the handlers\<close>

lemma set_gain_value_frame [simp]:
  "next_id (set_gain_value i v e) = next_id e"
  "calls (set_gain_value i v e) = calls e"
  "connections (set_gain_value i v e) = connections e"
  by (simp_all add: set_gain_value_def split: option.splits audio_node.splits)

lemma set_frequency_value_frame [simp]:
  "next_id (set_frequency_value i v e) = next_id e"
  "calls (set_frequency_value i v e) = calls e"
  "connections (set_frequency_value i v e) = connections e"
  by (simp_all add: set_frequency_value_def split: option.splits audio_node.splits)

lemma set_type_frame [simp]:
  "next_id (set_type i t e) = next_id e"
  "calls (set_type i t e) = calls e"
  "connections (set_type i t e) = connections e"
  by (simp_all add: set_type_def split: option.splits audio_node.splits)

lemma synth_inv_init: "synth_inv (init a)"
  by (simp add: synth_inv_def init_def started_below_def)

lemma createOscillator_eq:
  "createOscillator f e =
     (next_id e,
      e\<lparr>nodes := (nodes e)(next_id e \<mapsto> Oscillator ''square'' f), next_id := Suc (next_id e)\<rparr>)"
  by (simp add: createOscillator_def ctx_createOscillator_def new_node_def set_type_def
      set_frequency_value_def)

lemma createGain_eq:
  "createGain (Some m) v e =
     Inr (next_id e,
      e\<lparr>nodes := (nodes e)(next_id e \<mapsto> Gain v), next_id := Suc (next_id e),
        connections := connections e @ [(next_id e, m)]\<rparr>)"
  by (simp add: createGain_def ctx_createGain_def new_node_def connect_def set_gain_value_def)

lemma createGain_None: "createGain None v e = Inl TypeError"
  by (simp add: createGain_def ctx_createGain_def new_node_def connect_def)

lemma playNote_running:
  assumes "audioContext s \<noteq> None" "masterGainNode s = Some m" "started_below (engine s)"
  shows "playNote note velocity s =
     Inr (s\<lparr>pressedKeys := AList.update note (next_id (engine s)) (pressedKeys s),
            engine := (engine s)\<lparr>
              nodes := (nodes (engine s))
                (next_id (engine s) \<mapsto> Oscillator ''square'' (midiNoteToFreq note),
                 Suc (next_id (engine s)) \<mapsto> Gain (midiVelocityToGain velocity)),
              next_id := Suc (Suc (next_id (engine s))),
              connections := connections (engine s) @
                 [(Suc (next_id (engine s)), m), (next_id (engine s), Suc (next_id (engine s)))],
              calls := calls (engine s) @ [Start (next_id (engine s))]\<rparr>\<rparr>)"
proof -
  have "Start (next_id (engine s)) \<notin> set (calls (engine s))"
    using assms(3) by (auto simp: started_below_def)
  then show ?thesis
    using assms(1,2)
    by (auto simp: playNote_def createOscillator_eq createGain_eq connect_def osc_start_def)
qed

lemma stopNote_none: "map_of (pressedKeys s) note = None \<Longrightarrow> stopNote note s = Inr s"
  by (simp add: stopNote_def)

lemma stopNote_some:
  assumes "map_of (pressedKeys s) note = Some osc" "Start osc \<in> set (calls (engine s))"
  shows "stopNote note s =
     Inr (s\<lparr>pressedKeys := AList.delete note (pressedKeys s),
            engine := (engine s)\<lparr>calls := calls (engine s) @ [Stop osc]\<rparr>\<rparr>)"
  using assms by (simp add: stopNote_def osc_stop_def)

lemma in_set_updateD:
  "(a, b) \<in> set (AList.update k v al) \<Longrightarrow> (a, b) = (k, v) \<or> (a, b) \<in> set al"
  by (induction al) (auto split: if_splits)

lemma in_set_deleteD: "x \<in> set (AList.delete k al) \<Longrightarrow> x \<in> set al"
  by (simp add: AList.delete_eq)

lemma distinct_snd_update:
  "distinct (map snd al) \<Longrightarrow> v \<notin> snd ` set al \<Longrightarrow> distinct (map snd (AList.update k v al))"
proof (induction al)
  case Nil
  then show ?case by simp
next
  case (Cons p al)
  then show ?case
    by (cases p) (force dest!: in_set_updateD)
qed

lemma distinct_snd_delete:
  "distinct (map snd al) \<Longrightarrow> distinct (map snd (AList.delete k al))"
  by (simp add: AList.delete_eq distinct_map_filter)

lemma delete_other_value:
  assumes "distinct (map snd al)" "(k, v) \<in> set al" "(k', v') \<in> set (AList.delete k al)"
  shows "v' \<noteq> v"
proof
  assume "v' = v"
  with assms(3) have "(k', v) \<in> set al" "k' \<noteq> k"
    by (auto simp: AList.delete_eq)
  with assms(1,2) show False
    by (metis distinct_map inj_onD prod.inject snd_conv)
qed

lemma synth_inv_playNote:
  assumes "synth_inv s"
  shows "\<exists>s'. playNote note velocity s = Inr s' \<and> synth_inv s'"
proof (cases "audioContext s")
  case None
  then show ?thesis using assms by (simp add: playNote_def)
next
  case (Some ctx)
  then obtain m where m: "masterGainNode s = Some m"
    using assms by (auto simp: synth_inv_def)
  have sb: "started_below (engine s)" using assms by (simp add: synth_inv_def)
  have ctx: "audioContext s \<noteq> None" using Some by simp
  have "synth_inv (s\<lparr>pressedKeys := AList.update note (next_id (engine s)) (pressedKeys s),
            engine := (engine s)\<lparr>
              nodes := (nodes (engine s))
                (next_id (engine s) \<mapsto> Oscillator ''square'' (midiNoteToFreq note),
                 Suc (next_id (engine s)) \<mapsto> Gain (midiVelocityToGain velocity)),
              next_id := Suc (Suc (next_id (engine s))),
              connections := connections (engine s) @
                 [(Suc (next_id (engine s)), m), (next_id (engine s), Suc (next_id (engine s)))],
              calls := calls (engine s) @ [Start (next_id (engine s))]\<rparr>\<rparr>)"
    using assms Some
    by (auto simp: synth_inv_def started_below_def distinct_update less_Suc_eq
        intro!: distinct_snd_update dest!: in_set_updateD)
  then show ?thesis
    using playNote_running [OF ctx m sb] by simp
qed

lemma synth_inv_stopNote:
  assumes "synth_inv s"
  shows "\<exists>s'. stopNote note s = Inr s' \<and> synth_inv s'"
proof (cases "map_of (pressedKeys s) note")
  case None
  then show ?thesis using assms by (simp add: stopNote_none)
next
  case (Some osc)
  then have mem: "(note, osc) \<in> set (pressedKeys s)" by (rule map_of_SomeD)
  then have st: "Start osc \<in> set (calls (engine s))"
    using assms by (force simp: synth_inv_def)
  have ctx: "audioContext s \<noteq> None" using assms Some by (auto simp: synth_inv_def)
  have dsnd: "distinct (map snd (pressedKeys s))" using assms by (simp add: synth_inv_def)
  have other: "\<forall>p \<in> set (AList.delete note (pressedKeys s)). snd p \<noteq> osc"
    using delete_other_value [OF dsnd mem] by (metis prod.collapse)
  have sub: "set (AList.delete note (pressedKeys s)) \<subseteq> set (pressedKeys s)"
    by (auto dest: in_set_deleteD)
  let ?s' = "s\<lparr>pressedKeys := AList.delete note (pressedKeys s),
            engine := (engine s)\<lparr>calls := calls (engine s) @ [Stop osc]\<rparr>\<rparr>"
  have a: "distinct (map fst (pressedKeys ?s'))" "distinct (map snd (pressedKeys ?s'))"
    using assms by (simp_all add: synth_inv_def distinct_delete distinct_snd_delete)
  have b: "\<forall>o' \<in> snd ` set (pressedKeys ?s'). Start o' \<in> set (calls (engine ?s'))"
    using assms sub by (auto simp: synth_inv_def)
  have c: "\<forall>o' \<in> snd ` set (pressedKeys ?s'). Stop o' \<notin> set (calls (engine ?s'))"
    using assms sub other by (auto simp: synth_inv_def)
  have d: "started_below (engine ?s')"
    using assms st by (auto simp: synth_inv_def started_below_def)
  have "synth_inv ?s'"
    unfolding synth_inv_def using a b c d ctx assms by (simp add: synth_inv_def)
  then show ?thesis using stopNote_some [OF Some st] by simp
qed

lemma synth_inv_setMasterGain: "synth_inv s \<Longrightarrow> synth_inv (setMasterGain v s)"
  by (auto simp: synth_inv_def setMasterGain_def started_below_def split: option.splits)

lemma synth_inv_setMasterFilterFreq: "synth_inv s \<Longrightarrow> synth_inv (setMasterFilterFreq d s)"
  by (auto simp: synth_inv_def setMasterFilterFreq_def started_below_def split: option.splits)

lemma synth_inv_enableMidiInput: "synth_inv s \<Longrightarrow> synth_inv (enableMidiInput p s)"
  by (auto simp: synth_inv_def enableMidiInput_def)

lemma synth_inv_disableMidiInput: "synth_inv s \<Longrightarrow> synth_inv (disableMidiInput p s)"
  by (auto simp: synth_inv_def disableMidiInput_def)

lemma synth_inv_onStateChange: "synth_inv s \<Longrightarrow> synth_inv (onStateChange p s)"
  by (simp add: onStateChange_def synth_inv_enableMidiInput synth_inv_disableMidiInput
      split: port_state.splits)

lemma createFilter_eq:
  "createFilter e =
     (next_id e,
      e\<lparr>nodes := (nodes e)(next_id e \<mapsto> BiquadFilter ''lowpass'' 350 1),
        next_id := Suc (next_id e)\<rparr>)"
  by (simp add: createFilter_def ctx_createBiquadFilter_def new_node_def set_type_def
      assign_readonly_attribute_def)

lemma createAudio_eq:
  "createAudio s =
     (if \<not> ACtx s then Inr s
      else Inr (s\<lparr>audioContext := Some \<lparr>destination = next_id (engine s)\<rparr>,
                  masterGainNode := Some (Suc (next_id (engine s))),
                  masterFilter := Some (Suc (Suc (next_id (engine s)))),
                  engine := (engine s)\<lparr>
                    nodes := (nodes (engine s))
                      (next_id (engine s) \<mapsto> Destination,
                       Suc (next_id (engine s)) \<mapsto> Gain 0.5,
                       Suc (Suc (next_id (engine s))) \<mapsto> BiquadFilter ''lowpass'' 350 1),
                    next_id := Suc (Suc (Suc (next_id (engine s)))),
                    connections := connections (engine s) @
                      [(Suc (next_id (engine s)), Suc (Suc (next_id (engine s)))),
                       (Suc (Suc (next_id (engine s))), next_id (engine s))]\<rparr>\<rparr>))"
  by (simp add: createAudio_def new_AudioContext_def ctx_createGain_def new_node_def
      set_gain_value_def createFilter_eq connect_def)

lemma synth_inv_onStartBtnClick:
  assumes "synth_inv s"
  shows "\<exists>s'. onStartBtnClick s = Inr s' \<and> synth_inv s'"
  using assms
  by (auto simp: onStartBtnClick_def createAudio_eq disableStartBtn_def synth_inv_def
      started_below_def less_Suc_eq)

lemma synth_inv_onMidiMessage:
  assumes "synth_inv s"
  shows "\<exists>s'. onMidiMessage m s = Inr s' \<and> synth_inv s'"
proof -
  obtain sb d1 d2 where m: "m = (sb, d1, d2)" by (cases m) auto
  have "\<exists>s1. (if isNoteOn sb then playNote d1 d2 s else Inr s) = Inr s1 \<and> synth_inv s1"
    using synth_inv_playNote [OF assms, of d1 d2] assms by (cases "isNoteOn sb") auto
  then obtain s1 where s1: "(if isNoteOn sb then playNote d1 d2 s else Inr s) = Inr s1" "synth_inv s1"
    by blast
  have "\<exists>s2. (if isNoteOff sb then stopNote d1 s1 else Inr s1) = Inr s2 \<and> synth_inv s2"
    using synth_inv_stopNote [OF s1(2), of d1] s1(2) by (cases "isNoteOff sb") auto
  then obtain s2 where s2: "(if isNoteOff sb then stopNote d1 s1 else Inr s1) = Inr s2" "synth_inv s2"
    by blast
  show ?thesis
    using s1(1) s2
    by (simp add: onMidiMessage_def m synth_inv_setMasterGain synth_inv_setMasterFilterFreq Let_def)
qed

lemma synth_inv_step:
  assumes "synth_inv s"
  shows "\<exists>s'. step ev s = Inr s' \<and> synth_inv s'"
  using assms synth_inv_onStartBtnClick [OF assms] synth_inv_onMidiMessage [OF assms]
  by (cases ev) (auto simp: synth_inv_onStateChange synth_inv_enableMidiInput)

lemma synth_inv_run:
  assumes "synth_inv s"
  shows "\<exists>s'. run evs s = Inr s' \<and> synth_inv s'"
  using assms
proof (induction evs arbitrary: s)
  case Nil
  then show ?case by simp
next
  case (Cons ev evs)
  from synth_inv_step [OF Cons.prems, of ev] obtain s1 where "step ev s = Inr s1" "synth_inv s1"
    by auto
  then show ?case using Cons.IH [of s1] by simp
qed

subsection \<open>Runs from the initial state\<close>

lemma run_total: "\<exists>s. run evs (init a) = Inr s \<and> synth_inv s"
  by (rule synth_inv_run [OF synth_inv_init])

lemma run_synth_inv: "run evs (init a) = Inr s \<Longrightarrow> synth_inv s"
  using run_total [of evs a] by auto

lemma onMidiMessage_dispatch:
  "onMidiMessage (sb, d1, d2) s =
     (if isNoteOn sb then playNote d1 d2 s
      else if isNoteOff sb then stopNote d1 s
      else if sb = 176 then (if d1 = 7 then Inr (setMasterGain (real d2 / 127) s) else Inr s)
      else if sb = 224 then Inr (setMasterFilterFreq d2 s)
      else Inr s)"
  by (auto simp: onMidiMessage_def isNoteOn_def isNoteOff_def Let_def split: sum.splits)

lemma step_example_running: "step StartBtnClick (init True) = Inr example_running"
  by (simp add: init_def onStartBtnClick_def createAudio_eq disableStartBtn_def
      example_running_def numeral_2_eq_2)

lemma run_example_running: "run [StartBtnClick] (init True) = Inr example_running"
  by (simp del: step.simps add: step_example_running)

lemma example_running_inv: "synth_inv example_running"
  using run_synth_inv [OF run_example_running] .

lemma step_example_sounding: "onMidiMessage (144, 60, 90) example_running = Inr example_sounding"
proof -
  have a: "audioContext example_running \<noteq> None" by (simp add: example_running_def)
  have m: "masterGainNode example_running = Some 1" by (simp add: example_running_def)
  have b: "started_below (engine example_running)"
    using example_running_inv by (simp add: synth_inv_def)
  show ?thesis
    unfolding onMidiMessage_dispatch
    by (simp add: isNoteOn_def playNote_running [OF a m b])
      (simp add: example_running_def example_sounding_def)
qed

lemma run_example_sounding:
  "run [StartBtnClick, MidiMessage 144 60 90] (init True) = Inr example_sounding"
  by (simp del: step.simps add: step.simps(4) step_example_running step_example_sounding)

lemma filter_key_absent:
  "k \<notin> fst ` set al \<Longrightarrow> filter (\<lambda>p. fst p = k) al = []"
  by (induction al) auto

lemma filter_key_le_one:
  "distinct (map fst al) \<Longrightarrow> length (filter (\<lambda>p. fst p = n) al) \<le> 1"
proof (induction al)
  case Nil
  then show ?case by simp
next
  case (Cons p al)
  have "fst p = n \<Longrightarrow> filter (\<lambda>p. fst p = n) al = []"
    using Cons.prems by (simp add: filter_key_absent)
  then show ?case using Cons by auto
qed

lemma filter_key_update:
  "distinct (map fst al) \<Longrightarrow> filter (\<lambda>p. fst p = n) (AList.update n v al) = [(n, v)]"
proof (induction al)
  case Nil
  then show ?case by simp
next
  case (Cons p al)
  have "fst p = n \<Longrightarrow> filter (\<lambda>p. fst p = n) al = []"
    using Cons.prems by (simp add: filter_key_absent)
  then show ?case using Cons by auto
qed

lemma filter_key_map_of:
  "distinct (map fst al) \<Longrightarrow> map_of al n = Some v \<Longrightarrow> filter (\<lambda>p. fst p = n) al = [(n, v)]"
proof (induction al)
  case Nil
  then show ?case by simp
next
  case (Cons p al)
  show ?case
  proof (cases "fst p = n")
    case True
    then have "filter (\<lambda>p. fst p = n) al = []"
      using Cons.prems(1) by (simp add: filter_key_absent)
    then show ?thesis using True Cons.prems(2) by (cases p) auto
  next
    case False
    then show ?thesis using Cons by (cases p) auto
  qed
qed

lemma length_delete_entry:
  assumes "distinct (map fst al)" "map_of al n = Some v"
  shows "Suc (length (filter (\<lambda>p. fst p \<noteq> n) al)) = length al"
  using sum_length_filter_compl [of "\<lambda>p. fst p = n" al] filter_key_map_of [OF assms]
  by simp

lemma delete_filter_fst: "AList.delete n al = filter (\<lambda>p. fst p \<noteq> n) al"
  by (induction al) auto

subsection \<open>The device registry, and the other versions\<close>

text \<open>
  A second call of \<open>enableMidiInput\<close> for the same name changes nothing. For a port
  whose name is not a property of \<open>Object.prototype\<close> the registry does what the
  guards of \<open>enableMidiInput\<close> and \<open>disableMidiInput\<close> are there for. In the version
  without a guard it is \<open>addEventListener\<close> that keeps a second call from adding a
  listener.
\<close>

lemma enableMidiInput_twice:
  "name q = name p \<Longrightarrow> enableMidiInput q (enableMidiInput p s) = enableMidiInput p s"
  by (simp add: enableMidiInput_def truthy_property_def update_conv' split: option.splits)

lemma enableMidiInput_subscribes_once:
  assumes "name p \<notin> set object_prototype_keys" "map_of (midiPorts s) (name p) = None"
  shows "map_of (midiPorts (enableMidiInput p (enableMidiInput p s))) (name p) = Some p
    \<and> count_list (listeners (enableMidiInput p (enableMidiInput p s))) (port_id p, ''midimessage'')
        = (if (port_id p, ''midimessage'') \<in> set (listeners s)
           then count_list (listeners s) (port_id p, ''midimessage'') else 1)"
  using assms
  by (auto simp: enableMidiInput_twice enableMidiInput_def truthy_property_def update_conv'
      addEventListener_def count_list_0_iff)

lemma disableMidiInput_unsubscribed:
  assumes "name p \<notin> set object_prototype_keys" "map_of (midiPorts s) (name p) = None"
  shows "disableMidiInput p s = s"
  using assms by (simp add: disableMidiInput_def truthy_property_def)

lemma enableMidiInput_unguarded_twice:
  "enableMidiInput_unguarded p (enableMidiInput_unguarded p s) = enableMidiInput_unguarded p s"
  by (simp add: enableMidiInput_unguarded_def addEventListener_def)

lemma createFilter_class_eq:
  "createFilter_class e =
     (next_id e,
      e\<lparr>nodes := (nodes e)(next_id e \<mapsto> BiquadFilter ''lowpass'' 1000 8),
        next_id := Suc (next_id e)\<rparr>)"
  by (simp add: createFilter_class_def ctx_createBiquadFilter_def new_node_def set_type_def
      set_frequency_value_def set_Q_value_def)

section \<open>The claims\<close>

text \<open>
  Claim C1: for every note \<open>n\<close> and every sequence of events, the run ends without
  an exception in a state whose voice registry \<open>pressedKeys\<close> holds at most one entry
  for \<open>n\<close>; and when \<open>n\<close> is already sounding while the synth is running, a second
  NoteOn for \<open>n\<close> leaves exactly one entry for \<open>n\<close>, which holds the new
  oscillator, while the oscillator of the old entry has been started and is not
  stopped.
\<close>

theorem one_voice_per_note:
  "\<exists>s. run evs (init a) = Inr s
     \<and> length (filter (\<lambda>p. fst p = n) (pressedKeys s)) \<le> 1
     \<and> (\<forall>osc0. 144 \<le> statusByte \<and> statusByte \<le> 159 \<and> audioContext s \<noteq> None
            \<and> map_of (pressedKeys s) n = Some osc0 \<longrightarrow>
          (\<exists>s'. onMidiMessage (statusByte, n, velocity) s = Inr s'
             \<and> filter (\<lambda>p. fst p = n) (pressedKeys s') = [(n, next_id (engine s))]
             \<and> next_id (engine s) \<noteq> osc0
             \<and> Start osc0 \<in> set (calls (engine s'))
             \<and> Stop osc0 \<notin> set (calls (engine s'))))"
proof -
  obtain s where r: "run evs (init a) = Inr s" and i: "synth_inv s"
    using run_total by blast
  have d: "distinct (map fst (pressedKeys s))" using i by (simp add: synth_inv_def)
  have sb: "started_below (engine s)" using i by (simp add: synth_inv_def)
  have second: "\<exists>s'. onMidiMessage (statusByte, n, velocity) s = Inr s'
             \<and> filter (\<lambda>p. fst p = n) (pressedKeys s') = [(n, next_id (engine s))]
             \<and> next_id (engine s) \<noteq> osc0
             \<and> Start osc0 \<in> set (calls (engine s'))
             \<and> Stop osc0 \<notin> set (calls (engine s'))"
    if h: "144 \<le> statusByte" "statusByte \<le> 159" "audioContext s \<noteq> None"
      "map_of (pressedKeys s) n = Some osc0" for osc0
  proof -
    obtain m where m: "masterGainNode s = Some m"
      using i h(3) by (auto simp: synth_inv_def)
    have mem: "osc0 \<in> snd ` set (pressedKeys s)"
      using map_of_SomeD [OF h(4)] by force
    then have st: "Start osc0 \<in> set (calls (engine s))" "Stop osc0 \<notin> set (calls (engine s))"
      using i by (auto simp: synth_inv_def)
    then have lt: "osc0 < next_id (engine s)"
      using sb by (auto simp: started_below_def)
    show ?thesis
      using h(1,2) st lt
      by (simp add: onMidiMessage_dispatch isNoteOn_def playNote_running [OF h(3) m sb]
          filter_key_update [OF d])
  qed
  show ?thesis
    using r filter_key_le_one [OF d] second by blast
qed

theorem one_voice_per_note_witness:
  "length (filter (\<lambda>p. fst p = 60) (pressedKeys example_sounding)) \<le> 1
   \<and> (144::nat) \<le> 144 \<and> (144::nat) \<le> 159 \<and> audioContext example_sounding \<noteq> None
   \<and> map_of (pressedKeys example_sounding) 60 = Some 3
   \<and> (\<exists>s'. onMidiMessage (144, 60, 80) example_sounding = Inr s'
         \<and> filter (\<lambda>p. fst p = 60) (pressedKeys s') = [(60, 5)]
         \<and> Start 3 \<in> set (calls (engine s'))
         \<and> Stop 3 \<notin> set (calls (engine s')))"
proof -
  have h: "audioContext example_sounding \<noteq> None"
    "map_of (pressedKeys example_sounding) 60 = Some 3"
    "next_id (engine example_sounding) = 5"
    by (simp_all add: example_sounding_def)
  from one_voice_per_note [of "[StartBtnClick, MidiMessage 144 60 90]" True 60 144 80]
  obtain s where s: "run [StartBtnClick, MidiMessage 144 60 90] (init True) = Inr s"
    and p: "length (filter (\<lambda>p. fst p = 60) (pressedKeys s)) \<le> 1"
      "\<forall>osc0. (144::nat) \<le> 144 \<and> (144::nat) \<le> 159 \<and> audioContext s \<noteq> None
            \<and> map_of (pressedKeys s) 60 = Some osc0 \<longrightarrow>
          (\<exists>s'. onMidiMessage (144, 60, 80) s = Inr s'
             \<and> filter (\<lambda>p. fst p = 60) (pressedKeys s') = [(60, next_id (engine s))]
             \<and> next_id (engine s) \<noteq> osc0
             \<and> Start osc0 \<in> set (calls (engine s'))
             \<and> Stop osc0 \<notin> set (calls (engine s')))"
    by blast
  have e: "s = example_sounding" using s run_example_sounding by simp
  show ?thesis
    using p h unfolding e by auto
qed

text \<open>
  Claim C2: in a running state with an empty voice registry, a NoteOn for a note
  (60 at velocity 90 in the scenario) followed by a NoteOff for the same note first
  creates the voice and then removes it. After the NoteOn the engine has a new square
  oscillator at the frequency of the note and a new gain node at the gain of the
  velocity, connected oscillator to gain to master gain, the oscillator is started and
  it is the one entry of the registry. After the NoteOff the registry is empty again,
  nodes and connections are as they were, and the engine has received one \<open>start\<close>
  and exactly one \<open>stop\<close>, both for the oscillator of that voice.
\<close>

theorem note_on_then_off:
  "\<exists>s. run evs (init a) = Inr s
     \<and> (audioContext s \<noteq> None \<and> pressedKeys s = []
          \<and> 144 \<le> on \<and> on \<le> 159 \<and> 128 \<le> off \<and> off \<le> 143 \<longrightarrow>
        (\<exists>s1 s2 m. masterGainNode s = Some m
           \<and> onMidiMessage (on, n, velocity) s = Inr s1
           \<and> pressedKeys s1 = [(n, next_id (engine s))]
           \<and> nodes (engine s1) =
               (nodes (engine s))
                 (next_id (engine s) \<mapsto> Oscillator ''square'' (midiNoteToFreq n),
                  Suc (next_id (engine s)) \<mapsto> Gain (midiVelocityToGain velocity))
           \<and> connections (engine s1) =
               connections (engine s) @
                 [(Suc (next_id (engine s)), m), (next_id (engine s), Suc (next_id (engine s)))]
           \<and> calls (engine s1) = calls (engine s) @ [Start (next_id (engine s))]
           \<and> onMidiMessage (off, n, release) s1 = Inr s2
           \<and> pressedKeys s2 = []
           \<and> nodes (engine s2) = nodes (engine s1)
           \<and> connections (engine s2) = connections (engine s1)
           \<and> calls (engine s2) =
               calls (engine s) @ [Start (next_id (engine s)), Stop (next_id (engine s))]))"
proof -
  obtain s where r: "run evs (init a) = Inr s" and i: "synth_inv s"
    using run_total by blast
  have sb: "started_below (engine s)" using i by (simp add: synth_inv_def)
  have "
(\<exists>s1 s2 m. masterGainNode s = Some m
       \<and> onMidiMessage (on, n, velocity) s = Inr s1
       \<and> pressedKeys s1 = [(n, next_id (engine s))]
       \<and> nodes (engine s1) =
           (nodes (engine s))
             (next_id (engine s) \<mapsto> Oscillator ''square'' (midiNoteToFreq n),
              Suc (next_id (engine s)) \<mapsto> Gain (midiVelocityToGain velocity))
       \<and> connections (engine s1) =
           connections (engine s) @
             [(Suc (next_id (engine s)), m), (next_id (engine s), Suc (next_id (engine s)))]
       \<and> calls (engine s1) = calls (engine s) @ [Start (next_id (engine s))]
       \<and> onMidiMessage (off, n, release) s1 = Inr s2
       \<and> pressedKeys s2 = []
       \<and> nodes (engine s2) = nodes (engine s1)
       \<and> connections (engine s2) = connections (engine s1)
       \<and> calls (engine s2) =
           calls (engine s) @ [Start (next_id (engine s)), Stop (next_id (engine s))])"
    if h: "audioContext s \<noteq> None" "pressedKeys s = []" "144 \<le> on" "on \<le> 159"
      "128 \<le> off" "off \<le> 143"
  proof -
    obtain m where m: "masterGainNode s = Some m"
      using i h(1) by (auto simp: synth_inv_def)
    show ?thesis
      using h(2-6) m
      by (simp add: onMidiMessage_dispatch isNoteOn_def isNoteOff_def
          playNote_running [OF h(1) m sb] stopNote_def osc_stop_def)
  qed
  then show ?thesis using r by (intro exI [of _ s]) simp
qed

theorem note_on_then_off_witness:
  "audioContext example_running \<noteq> None \<and> pressedKeys example_running = []
   \<and> (144::nat) \<le> 144 \<and> (144::nat) \<le> 159 \<and> (128::nat) \<le> 128 \<and> (128::nat) \<le> 143
   \<and> (\<exists>s1 s2. onMidiMessage (144, 60, 90) example_running = Inr s1
         \<and> pressedKeys s1 = [(60, 3)]
         \<and> nodes (engine s1) 3 = Some (Oscillator ''square'' (midiNoteToFreq 60))
         \<and> nodes (engine s1) 4 = Some (Gain (midiVelocityToGain 90))
         \<and> connections (engine s1) = [(1, 2), (2, 0), (4, 1), (3, 4)]
         \<and> calls (engine s1) = [Start 3]
         \<and> onMidiMessage (128, 60, 0) s1 = Inr s2
         \<and> pressedKeys s2 = []
         \<and> nodes (engine s2) = nodes (engine s1)
         \<and> connections (engine s2) = connections (engine s1)
         \<and> calls (engine s2) = [Start 3, Stop 3])"
proof -
  have h: "audioContext example_running \<noteq> None" "pressedKeys example_running = []"
    "next_id (engine example_running) = 3" "calls (engine example_running) = []"
    "masterGainNode example_running = Some 1"
    "connections (engine example_running) = [(1, 2), (2, 0)]"
    by (simp_all add: example_running_def)
  from note_on_then_off [of "[StartBtnClick]" True 144 128 60 90 0]
  obtain s where s: "run [StartBtnClick] (init True) = Inr s"
    and p: "audioContext s \<noteq> None \<and> pressedKeys s = []
          \<and> (144::nat) \<le> 144 \<and> (144::nat) \<le> 159 \<and> (128::nat) \<le> 128 \<and> (128::nat) \<le> 143 \<longrightarrow>
        (\<exists>s1 s2 m. masterGainNode s = Some m
           \<and> onMidiMessage (144, 60, 90) s = Inr s1
           \<and> pressedKeys s1 = [(60, next_id (engine s))]
           \<and> nodes (engine s1) =
               (nodes (engine s))
                 (next_id (engine s) \<mapsto> Oscillator ''square'' (midiNoteToFreq 60),
                  Suc (next_id (engine s)) \<mapsto> Gain (midiVelocityToGain 90))
           \<and> connections (engine s1) =
               connections (engine s) @
                 [(Suc (next_id (engine s)), m), (next_id (engine s), Suc (next_id (engine s)))]
           \<and> calls (engine s1) = calls (engine s) @ [Start (next_id (engine s))]
           \<and> onMidiMessage (128, 60, 0) s1 = Inr s2
           \<and> pressedKeys s2 = []
           \<and> nodes (engine s2) = nodes (engine s1)
           \<and> connections (engine s2) = connections (engine s1)
           \<and> calls (engine s2) =
               calls (engine s) @ [Start (next_id (engine s)), Stop (next_id (engine s))])"
    by blast
  have e: "s = example_running" using s run_example_running by simp
  from p h obtain s1 s2 m where q: "masterGainNode example_running = Some m"
    "onMidiMessage (144, 60, 90) example_running = Inr s1"
    "pressedKeys s1 = [(60, 3)]"
    "nodes (engine s1) =
       (nodes (engine example_running))
         (3 \<mapsto> Oscillator ''square'' (midiNoteToFreq 60),
          Suc 3 \<mapsto> Gain (midiVelocityToGain 90))"
    "connections (engine s1) = [(1, 2), (2, 0)] @ [(Suc 3, m), (3, Suc 3)]"
    "calls (engine s1) = [] @ [Start 3]"
    "onMidiMessage (128, 60, 0) s1 = Inr s2"
    "pressedKeys s2 = []"
    "nodes (engine s2) = nodes (engine s1)"
    "connections (engine s2) = connections (engine s1)"
    "calls (engine s2) = [] @ [Start 3, Stop 3]"
    unfolding e by auto
  have m: "m = 1" using q(1) h(5) by simp
  show ?thesis
    using h(1,2) q(2-11) unfolding m by auto
qed

text \<open>
  Claim C3: while the audio context has not been created (Idle), handling any MIDI
  message leaves the whole state unchanged, in particular the voice registry and the
  master gain and filter; no voice is created and the registry is empty.
\<close>

theorem idle_ignores_events:
  "\<exists>s. run evs (init a) = Inr s
     \<and> (audioContext s = None \<longrightarrow>
          onMidiMessage (statusByte, data1, data2) s = Inr s \<and> pressedKeys s = [])"
proof -
  obtain s where r: "run evs (init a) = Inr s" and i: "synth_inv s"
    using run_total by blast
  have "onMidiMessage (statusByte, data1, data2) s = Inr s \<and> pressedKeys s = []"
    if h: "audioContext s = None"
  proof -
    from i h have n: "masterGainNode s = None" "masterFilter s = None" "pressedKeys s = []"
      by (simp_all add: synth_inv_def)
    show ?thesis
      using h n
      by (simp add: onMidiMessage_dispatch playNote_def stopNote_def setMasterGain_def
          setMasterFilterFreq_def)
  qed
  then show ?thesis using r by (intro exI [of _ s]) simp
qed

theorem idle_ignores_events_witness:
  "audioContext (init True) = None
   \<and> onMidiMessage (144, 69, 100) (init True) = Inr (init True)
   \<and> pressedKeys (init True) = []"
proof -
  have n: "audioContext (init True) = None" by (simp add: init_def)
  from idle_ignores_events [of "[]" True 144 69 100]
  show ?thesis using n by simp
qed

text \<open>
  Claim C4: on every message of three bytes, \<open>onMidiMessage\<close> does what the session
  controller of the specification does on the one event the decoder of the
  specification gives: a NoteOn for a status byte in [144,159], a NoteOff in [128,143],
  a ControlChange at 176, a PitchBend at 224, Other elsewhere, with the data bytes
  passed on as they are, whatever their values. At most one of the four tests of
  \<open>onMidiMessage\<close> holds for a status byte, and no byte value makes the dispatch fail.
\<close>

theorem decoder_refinement:
  "onMidiMessage (statusByte, data1, data2) s = handleEvent (decode statusByte data1 data2) s
   \<and> length (filter id [isNoteOn statusByte, isNoteOff statusByte,
                         statusByte = 176, statusByte = 224]) \<le> 1"
  by (simp add: onMidiMessage_dispatch decode_def isNoteOn_def isNoteOff_def
      controlVolumeToGain_def)

text \<open>
  Claim C5: a message whose status byte is outside [128,159] and is neither 176 nor 224
  (200, say) is classified as Other, and handling it returns the state as it was,
  without an exception: voice registry, device registry and master channel are unchanged.
\<close>

theorem other_status_no_mutation:
  assumes "\<not> (128 \<le> statusByte \<and> statusByte \<le> 159)" "statusByte \<noteq> 176" "statusByte \<noteq> 224"
  shows "decode statusByte data1 data2 = Other
    \<and> onMidiMessage (statusByte, data1, data2) s = Inr s"
  using assms by (auto simp: onMidiMessage_dispatch decode_def isNoteOn_def isNoteOff_def)

theorem other_status_no_mutation_witness:
  "\<not> (128 \<le> (200::nat) \<and> (200::nat) \<le> 159) \<and> (200::nat) \<noteq> 176 \<and> (200::nat) \<noteq> 224
   \<and> decode 200 60 90 = Other
   \<and> onMidiMessage (200, 60, 90) example_sounding = Inr example_sounding"
  using other_status_no_mutation [of 200 60 90 example_sounding] by simp

text \<open>
  Claim C6: \<open>stopNote n\<close> on a registry with no entry for \<open>n\<close> returns the state
  unchanged, with no exception and no call to the engine, and so does a NoteOff
  message for \<open>n\<close>. When an entry exists (in a
  state reached by a run), the oscillator of the entry receives one \<open>stop\<close> and exactly
  that entry is removed: the registry is one entry shorter and every other note keeps
  its voice.
\<close>

theorem stopNote_unheld_is_noop:
  "(map_of (pressedKeys t) n = None \<longrightarrow>
      stopNote n t = Inr t
      \<and> (128 \<le> statusByte \<and> statusByte \<le> 143 \<longrightarrow>
           onMidiMessage (statusByte, n, data2) t = Inr t))
   \<and> (\<exists>s. run evs (init a) = Inr s
        \<and> (\<forall>osc. map_of (pressedKeys s) n = Some osc \<longrightarrow>
              stopNote n s =
                Inr (s\<lparr>pressedKeys := filter (\<lambda>p. fst p \<noteq> n) (pressedKeys s),
                       engine := (engine s)\<lparr>calls := calls (engine s) @ [Stop osc]\<rparr>\<rparr>)
              \<and> Suc (length (filter (\<lambda>p. fst p \<noteq> n) (pressedKeys s))) = length (pressedKeys s)
              \<and> map_of (filter (\<lambda>p. fst p \<noteq> n) (pressedKeys s)) =
                  (map_of (pressedKeys s))(n := None)))"
proof -
  obtain s where r: "run evs (init a) = Inr s" and i: "synth_inv s"
    using run_total by blast
  have d: "distinct (map fst (pressedKeys s))" using i by (simp add: synth_inv_def)
  have held: "stopNote n s =
                Inr (s\<lparr>pressedKeys := filter (\<lambda>p. fst p \<noteq> n) (pressedKeys s),
                       engine := (engine s)\<lparr>calls := calls (engine s) @ [Stop osc]\<rparr>\<rparr>)
              \<and> Suc (length (filter (\<lambda>p. fst p \<noteq> n) (pressedKeys s))) = length (pressedKeys s)
              \<and> map_of (filter (\<lambda>p. fst p \<noteq> n) (pressedKeys s)) =
                  (map_of (pressedKeys s))(n := None)"
    if h: "map_of (pressedKeys s) n = Some osc" for osc
  proof -
    have "osc \<in> snd ` set (pressedKeys s)"
      using map_of_SomeD [OF h] by force
    then have st: "Start osc \<in> set (calls (engine s))"
      using i by (auto simp: synth_inv_def)
    show ?thesis
      using stopNote_some [OF h st] length_delete_entry [OF d h]
        delete_conv' [of n "pressedKeys s"]
      by (simp add: delete_filter_fst)
  qed
  have unheld: "stopNote n t = Inr t
      \<and> (128 \<le> statusByte \<and> statusByte \<le> 143 \<longrightarrow>
           onMidiMessage (statusByte, n, data2) t = Inr t)"
    if "map_of (pressedKeys t) n = None"
    using that by (simp add: stopNote_none onMidiMessage_dispatch isNoteOn_def isNoteOff_def)
  have reached: "\<exists>s. run evs (init a) = Inr s
        \<and> (\<forall>osc. map_of (pressedKeys s) n = Some osc \<longrightarrow>
              stopNote n s =
                Inr (s\<lparr>pressedKeys := filter (\<lambda>p. fst p \<noteq> n) (pressedKeys s),
                       engine := (engine s)\<lparr>calls := calls (engine s) @ [Stop osc]\<rparr>\<rparr>)
              \<and> Suc (length (filter (\<lambda>p. fst p \<noteq> n) (pressedKeys s))) = length (pressedKeys s)
              \<and> map_of (filter (\<lambda>p. fst p \<noteq> n) (pressedKeys s)) =
                  (map_of (pressedKeys s))(n := None))"
    using r held by (intro exI [of _ s]) simp
  show ?thesis
    using unheld reached by blast
qed

theorem stopNote_unheld_is_noop_witness:
  "map_of (pressedKeys example_running) 60 = None
   \<and> stopNote 60 example_running = Inr example_running
   \<and> (128::nat) \<le> 128 \<and> (128::nat) \<le> 143
   \<and> onMidiMessage (128, 60, 0) example_running = Inr example_running
   \<and> map_of (pressedKeys example_sounding) 60 = Some 3
   \<and> stopNote 60 example_sounding =
       Inr (example_sounding\<lparr>pressedKeys := [],
              engine := (engine example_sounding)\<lparr>calls := [Start 3, Stop 3]\<rparr>\<rparr>)"
proof -
  have h: "map_of (pressedKeys example_running) 60 = None"
    "map_of (pressedKeys example_sounding) 60 = Some 3"
    "pressedKeys example_sounding = [(60, 3)]" "calls (engine example_sounding) = [Start 3]"
    by (simp_all add: example_running_def example_sounding_def)
  from stopNote_unheld_is_noop
    [of example_running 60 128 0 "[StartBtnClick, MidiMessage 144 60 90]" True]
  have n: "map_of (pressedKeys example_running) 60 = None \<longrightarrow>
        stopNote 60 example_running = Inr example_running
        \<and> ((128::nat) \<le> 128 \<and> (128::nat) \<le> 143 \<longrightarrow>
             onMidiMessage (128, 60, 0) example_running = Inr example_running)"
    and "\<exists>s. run [StartBtnClick, MidiMessage 144 60 90] (init True) = Inr s
        \<and> (\<forall>osc. map_of (pressedKeys s) 60 = Some osc \<longrightarrow>
              stopNote 60 s =
                Inr (s\<lparr>pressedKeys := filter (\<lambda>p. fst p \<noteq> 60) (pressedKeys s),
                       engine := (engine s)\<lparr>calls := calls (engine s) @ [Stop osc]\<rparr>\<rparr>)
              \<and> Suc (length (filter (\<lambda>p. fst p \<noteq> 60) (pressedKeys s))) = length (pressedKeys s)
              \<and> map_of (filter (\<lambda>p. fst p \<noteq> 60) (pressedKeys s)) =
                  (map_of (pressedKeys s))(60 := None))"
    by blast+
  then obtain s where s: "run [StartBtnClick, MidiMessage 144 60 90] (init True) = Inr s"
    and p: "\<forall>osc. map_of (pressedKeys s) 60 = Some osc \<longrightarrow>
              stopNote 60 s =
                Inr (s\<lparr>pressedKeys := filter (\<lambda>p. fst p \<noteq> 60) (pressedKeys s),
                       engine := (engine s)\<lparr>calls := calls (engine s) @ [Stop osc]\<rparr>\<rparr>)"
    by blast
  have e: "s = example_sounding" using s run_example_sounding by simp
  show ?thesis
    using n p h unfolding e by simp
qed

text \<open>
  Claim C7 (the code departs from it): \<open>enableMidiInput\<close>, called twice with the same
  port, should leave exactly one subscription. For a port named \<open>constructor\<close> the
  guard \<open>midiPorts[input.name]\<close> reads the property inherited from
  \<open>Object.prototype\<close>, so both calls return at once: the port gets no listener and no
  record in \<open>midiPorts\<close>, and the state is the initial one.
\<close>

theorem enable_inherited_name_not_subscribed:
  "enableMidiInput \<lparr>port_id = 1, name = ''constructor'', ptype = Input, pstate = Connected\<rparr>
     (enableMidiInput \<lparr>port_id = 1, name = ''constructor'', ptype = Input, pstate = Connected\<rparr>
        (init True)) = init True
   \<and> listeners (init True) = [] \<and> midiPorts (init True) = []"
  by (simp add: enableMidiInput_def truthy_property_def object_prototype_keys_def init_def)

text \<open>
  Claim C8: \<open>midiVelocityToGain\<close> is \<open>ln (10 ^ velocity) / 292.4283068102438\<close>, and it
  is strictly increasing in the velocity on [1,127] (over the reals, as which the
  numbers of the program are modelled).
\<close>

theorem velocity_gain_monotone:
  "midiVelocityToGain v = ln (10 ^ v) / 292.4283068102438
   \<and> (1 \<le> v \<and> v < w \<and> w \<le> 127 \<longrightarrow> midiVelocityToGain v < midiVelocityToGain w)"
proof -
  have l: "ln ((10::real) ^ k) = real k * ln 10" for k
    by (simp add: ln_realpow)
  have p: "0 < ln (10::real)" by simp
  have "midiVelocityToGain v < midiVelocityToGain w" if "v < w"
    using that p by (simp add: midiVelocityToGain_def l divide_strict_right_mono)
  then show ?thesis by (simp add: midiVelocityToGain_def)
qed

theorem velocity_gain_monotone_witness:
  "(1::nat) \<le> 1 \<and> (1::nat) < 2 \<and> (2::nat) \<le> 127
   \<and> midiVelocityToGain 1 < midiVelocityToGain 2"
  using velocity_gain_monotone [of 1 2] by simp

text \<open>
  Claim C9: a NoteOn with velocity 0, received while running, is not a NoteOff: it
  creates an oscillator for the note, starts it and registers it under the note, as a
  NoteOn with any other velocity does (same registry, same calls to the engine) and
  stops nothing; the gain of the new voice is \<open>midiVelocityToGain 0 = 0\<close>.
\<close>

theorem note_on_velocity_zero:
  "midiVelocityToGain 0 = 0
   \<and> (\<exists>s. run evs (init a) = Inr s
        \<and> (audioContext s \<noteq> None \<and> 144 \<le> statusByte \<and> statusByte \<le> 159 \<longrightarrow>
            (\<exists>s'. onMidiMessage (statusByte, n, 0) s = Inr s'
               \<and> map_of (pressedKeys s') n = Some (next_id (engine s))
               \<and> nodes (engine s') (next_id (engine s)) =
                   Some (Oscillator ''square'' (midiNoteToFreq n))
               \<and> nodes (engine s') (Suc (next_id (engine s))) = Some (Gain 0)
               \<and> (next_id (engine s), Suc (next_id (engine s))) \<in> set (connections (engine s'))
               \<and> calls (engine s') = calls (engine s) @ [Start (next_id (engine s))]
               \<and> (\<forall>velocity. \<exists>s''. onMidiMessage (statusByte, n, velocity) s = Inr s''
                     \<and> pressedKeys s'' = pressedKeys s'
                     \<and> calls (engine s'') = calls (engine s')))))"
proof -
  have z: "midiVelocityToGain 0 = 0" by (simp add: midiVelocityToGain_def)
  obtain s where r: "run evs (init a) = Inr s" and i: "synth_inv s"
    using run_total by blast
  have sb: "started_below (engine s)" using i by (simp add: synth_inv_def)
  have "\<exists>s'. onMidiMessage (statusByte, n, 0) s = Inr s'
               \<and> map_of (pressedKeys s') n = Some (next_id (engine s))
               \<and> nodes (engine s') (next_id (engine s)) =
                   Some (Oscillator ''square'' (midiNoteToFreq n))
               \<and> nodes (engine s') (Suc (next_id (engine s))) = Some (Gain 0)
               \<and> (next_id (engine s), Suc (next_id (engine s))) \<in> set (connections (engine s'))
               \<and> calls (engine s') = calls (engine s) @ [Start (next_id (engine s))]
               \<and> (\<forall>velocity. \<exists>s''. onMidiMessage (statusByte, n, velocity) s = Inr s''
                     \<and> pressedKeys s'' = pressedKeys s'
                     \<and> calls (engine s'') = calls (engine s'))"
    if h: "audioContext s \<noteq> None" "144 \<le> statusByte" "statusByte \<le> 159"
  proof -
    obtain m where m: "masterGainNode s = Some m"
      using i h(1) by (auto simp: synth_inv_def)
    show ?thesis
      using h(2,3) z
      by (simp add: onMidiMessage_dispatch isNoteOn_def playNote_running [OF h(1) m sb]
          update_conv')
  qed
  then show ?thesis
    using r z by (intro conjI exI [of _ s]) simp_all
qed

theorem note_on_velocity_zero_witness:
  "audioContext example_running \<noteq> None \<and> (144::nat) \<le> 144 \<and> (144::nat) \<le> 159
   \<and> (\<exists>s'. onMidiMessage (144, 60, 0) example_running = Inr s'
         \<and> map_of (pressedKeys s') 60 = Some 3
         \<and> nodes (engine s') 4 = Some (Gain 0)
         \<and> calls (engine s') = [Start 3])"
proof -
  have h: "audioContext example_running \<noteq> None" "next_id (engine example_running) = 3"
    "calls (engine example_running) = []"
    by (simp_all add: example_running_def)
  from note_on_velocity_zero [of "[StartBtnClick]" True 144 60]
  obtain s where s: "run [StartBtnClick] (init True) = Inr s"
    and p: "audioContext s \<noteq> None \<and> (144::nat) \<le> 144 \<and> (144::nat) \<le> 159 \<longrightarrow>
            (\<exists>s'. onMidiMessage (144, 60, 0) s = Inr s'
               \<and> map_of (pressedKeys s') 60 = Some (next_id (engine s))
               \<and> nodes (engine s') (Suc (next_id (engine s))) = Some (Gain 0)
               \<and> calls (engine s') = calls (engine s) @ [Start (next_id (engine s))])"
    by blast
  have e: "s = example_running" using s run_example_running by simp
  show ?thesis
    using p h unfolding e by auto
qed

text \<open>
  Claim C10 (the code departs from it): the click on the start button sets the master
  gain to 0.5 and connects master gain, filter and destination in this order, but the
  master filter is left with the values \<open>createBiquadFilter\<close> gave it, a low-pass at
  350 Hz with Q = 1, not 1000 Hz and Q = 8: \<open>createFilter\<close> assigns to the read-only
  attributes \<open>frequency\<close> and \<open>Q\<close> instead of to their \<open>value\<close>, which
  \<open>createFilter\<close> of the class version does (\<open>createFilter_class_eq\<close>).
\<close>

theorem createAudio_filter_keeps_defaults:
  "\<exists>s. onStartBtnClick (init True) = Inr s
     \<and> audioContext s = Some \<lparr>destination = 0\<rparr>
     \<and> masterGainNode s = Some 1 \<and> masterFilter s = Some 2
     \<and> nodes (engine s) 1 = Some (Gain 0.5)
     \<and> nodes (engine s) 2 = Some (BiquadFilter ''lowpass'' 350 1)
     \<and> connections (engine s) = [(1, 2), (2, 0)]"
  by (simp add: onStartBtnClick_def createAudio_eq disableStartBtn_def init_def numeral_2_eq_2)

end
